theory Spec2Isabelle
  imports Complex_Main "HOL-Library.Sublist"
begin

section \<open>Python strings\<close>

text \<open>
  A Python \<open>str\<close> is modelled as a \<^typ>\<open>string\<close>, one \<^typ>\<open>char\<close> per code point.
  The classification tables of the Unicode database (\<open>str.isalnum\<close>, \<open>str.isspace\<close>,
  \<open>str.isprintable\<close>) are not part of \<open>Curriculos.py\<close>; the functions below take them as
  parameters, so every theorem holds whatever the tables say.
\<close>

text \<open>\<open>s.startswith(p)\<close> and \<open>s.endswith(p)\<close>.\<close>

fun startswith :: "string \<Rightarrow> string \<Rightarrow> bool" where
  "startswith s [] = True"
| "startswith [] (p # ps) = False"
| "startswith (c # s) (p # ps) = (c = p \<and> startswith s ps)"

definition endswith :: "string \<Rightarrow> string \<Rightarrow> bool" where
  "endswith s p = startswith (rev s) (rev p)"

text \<open>\<open>sub in s\<close> on strings: the substring test, tried at every position from the left.\<close>

fun py_in :: "string \<Rightarrow> string \<Rightarrow> bool" where
  "py_in sub [] = (sub = [])"
| "py_in sub (c # s) = (startswith (c # s) sub \<or> py_in sub s)"

text \<open>\<open>sep.join(xs)\<close>.\<close>

fun join :: "string \<Rightarrow> string list \<Rightarrow> string" where
  "join sep [] = []"
| "join sep [x] = x"
| "join sep (x # y # xs) = x @ sep @ join sep (y # xs)"

text \<open>\<open>s.strip()\<close>: leading and trailing whitespace removed.\<close>

definition strip :: "(char \<Rightarrow> bool) \<Rightarrow> string \<Rightarrow> string" where
  "strip space s = rev (dropWhile space (rev (dropWhile space s)))"

text \<open>
  \<open>s.lower()\<close>. Only the letters A to Z are mapped; no other code point lowers to one of
  the characters of \<open>.pdf\<close> or \<open>.docx\<close>, which is all the program asks of a lowered name.
\<close>

definition lower_char :: "char \<Rightarrow> char" where
  "lower_char c =
     (let n = (of_char c :: nat) in if 65 \<le> n \<and> n \<le> 90 then char_of (n + 32) else c)"

definition lower :: "string \<Rightarrow> string" where
  "lower s = map lower_char s"

subsection \<open>The text of a list of strings\<close>

text \<open>
  \<open>f"{job_keywords}"\<close> formats a list with \<open>str\<close>, which is the list's \<open>repr\<close>: the
  \<open>repr\<close> of every element, separated by a comma and a space, between brackets. The \<open>repr\<close>
  of a string quotes it (with a double quote when the string has a single quote and no
  double quote) and escapes the quote, the backslash and what is not printable.
\<close>

definition hex_digit :: "nat \<Rightarrow> char" where
  "hex_digit n = ''0123456789abcdef'' ! (n mod 16)"

definition repr_char :: "(char \<Rightarrow> bool) \<Rightarrow> char \<Rightarrow> char \<Rightarrow> string" where
  "repr_char printable quote ch =
     (let n = (of_char ch :: nat) in
      if ch = quote \<or> ch = CHR 0x5C then [CHR 0x5C, ch]
      else if ch = CHR 0x09 then [CHR 0x5C, CHR ''t'']
      else if ch = CHR 0x0A then [CHR 0x5C, CHR ''n'']
      else if ch = CHR 0x0D then [CHR 0x5C, CHR ''r'']
      else if n < 32 \<or> n = 127 then [CHR 0x5C, CHR ''x'', hex_digit (n div 16), hex_digit n]
      else if n < 127 then [ch]
      else if \<not> printable ch then [CHR 0x5C, CHR ''x'', hex_digit (n div 16), hex_digit n]
      else [ch])"

definition repr_str :: "(char \<Rightarrow> bool) \<Rightarrow> string \<Rightarrow> string" where
  "repr_str printable s =
     (let quote = (if CHR 0x27 \<in> set s \<and> CHR 0x22 \<notin> set s then CHR 0x22 else CHR 0x27)
      in [quote] @ concat (map (repr_char printable quote) s) @ [quote])"

definition str_of_list :: "(char \<Rightarrow> bool) \<Rightarrow> string list \<Rightarrow> string" where
  "str_of_list printable xs = ''['' @ join '', '' (map (repr_str printable) xs) @ '']''"

subsection \<open>\<open>re.findall(r'\w{4,}', s)\<close>\<close>

text \<open>
  A word character of a \<open>str\<close> pattern is an alphanumeric code point or the underscore.
  \<open>findall\<close> scans from the left: at each position the greedy \<open>\w{4,}\<close> takes the longest
  run of word characters; a run of four or more is a match and the scan goes on behind it,
  otherwise the match fails there and the scan moves one character on.
\<close>

definition is_word :: "(char \<Rightarrow> bool) \<Rightarrow> char \<Rightarrow> bool" where
  "is_word alnum c = (alnum c \<or> c = CHR ''_'')"

function findall_w4 :: "(char \<Rightarrow> bool) \<Rightarrow> string \<Rightarrow> string list" where
  "findall_w4 alnum s =
     (let m = takeWhile (is_word alnum) s in
      if 4 \<le> length m then m # findall_w4 alnum (drop (length m) s)
      else (case s of [] \<Rightarrow> [] | c # t \<Rightarrow> findall_w4 alnum t))"
  by pat_completeness auto
termination
proof (relation "measure (\<lambda>(alnum, s). length s)")
  fix alnum :: "char \<Rightarrow> bool" and s :: string and m :: string
  assume m: "m = takeWhile (is_word alnum) s" and long: "4 \<le> length m"
  have "length m \<le> length s"
    unfolding m by (rule length_takeWhile_le)
  with long show "((alnum, drop (length m) s), (alnum, s)) \<in> measure (\<lambda>(alnum, s). length s)"
    by simp
qed auto

declare findall_w4.simps [simp del]

section \<open>The job profile and the scorer\<close>

text \<open>
  \<open>job_keywords = [job_title] + [word for word in re.findall(r'\w{4,}', job_desc)
  if len(word) > 3]\<close>
\<close>

definition job_keywords :: "(char \<Rightarrow> bool) \<Rightarrow> string \<Rightarrow> string \<Rightarrow> string list" where
  "job_keywords alnum title desc =
     [title] @ filter (\<lambda>word. length word > 3) (findall_w4 alnum desc)"

text \<open>\<open>matches = sum(1 for keyword in job_keywords if keyword in text)\<close>\<close>

definition count_matches :: "string \<Rightarrow> string list \<Rightarrow> int" where
  "count_matches text kws = sum_list (map (\<lambda>keyword. 1) (filter (\<lambda>keyword. py_in keyword text) kws))"

datatype error = Exception string

text \<open>
  \<open>analyze_resume\<close>. The global \<open>model\<close> is its \<open>encode\<close> method, which may raise;
  \<open>util.cos_sim(...).item()\<close> is a float, modelled as a real number (the program only
  compares scores).
\<close>

definition analyze_resume ::
  "(char \<Rightarrow> bool) \<Rightarrow> (string \<Rightarrow> error + 'v) \<Rightarrow> ('v \<Rightarrow> 'v \<Rightarrow> real) \<Rightarrow> string \<Rightarrow> string list
     \<Rightarrow> error + (int \<times> real)" where
  "analyze_resume printable encode cosine text kws =
     (let job_text = str_of_list printable kws in
      case encode job_text of
        Inl e \<Rightarrow> Inl e
      | Inr job_embedding \<Rightarrow>
          (case encode text of
             Inl e \<Rightarrow> Inl e
           | Inr resume_embedding \<Rightarrow>
               (let score = cosine job_embedding resume_embedding;
                    matches = count_matches text kws
                in Inr (matches, score))))"

section \<open>The environment of a run\<close>

text \<open>
  What the program reads from outside itself: the Unicode tables, the embedding model
  (\<open>SentenceTransformer(...)\<close> may fail to load, \<open>encode\<close> may raise), the file system and
  the document parsers. \<open>pdf_pages\<close> is \<open>page.extract_text()\<close> of every page of the opened
  PDF (\<open>None\<close> for a page without text), \<open>docx_paragraphs\<close> is \<open>p.text\<close> of every paragraph;
  both raise on a file they cannot read or parse. \<open>isfile\<close> is \<open>os.path.isfile\<close>: whether a
  path names a regular file and not a directory; the program never asks.
\<close>

record 'v env =
  isalnum :: "char \<Rightarrow> bool"
  isspace :: "char \<Rightarrow> bool"
  isprintable :: "char \<Rightarrow> bool"
  load_model :: "error + (string \<Rightarrow> error + 'v)"
  cos_sim :: "'v \<Rightarrow> 'v \<Rightarrow> real"
  path_exists :: "string \<Rightarrow> bool"
  isfile :: "string \<Rightarrow> bool"
  listdir :: "string \<Rightarrow> error + string list"
  pdf_pages :: "string \<Rightarrow> error + string option list"
  docx_paragraphs :: "string \<Rightarrow> error + string list"
  word_tokenize :: "string \<Rightarrow> error + string list"

text \<open>The widgets: the button, the two text inputs, the folder and the two sliders.\<close>

record inputs =
  button :: bool
  job_title :: string
  job_desc :: string
  folder_path :: string
  min_score :: real
  min_matches :: int

text \<open>
  What a run does, in order: the messages and widgets it shows, and (\<open>Extract\<close>, \<open>Scored\<close>)
  its calls of \<open>process_file\<close> and \<open>analyze_resume\<close>.
\<close>

datatype event =
    ErrorModelLoad error
  | ErrorNoFiles
  | ErrorAnalysis error
  | ErrorFolderMissing
  | WarningProcess string error
  | WarningNoneQualified
  | Progress real
  | Success nat
  | Histogram "real list"
  | Dataframe "(string \<times> real \<times> int) list"
  | Extract string string
  | Scored string

record entry =
  Arquivo :: string
  Caminho :: string
  Tipo :: string
  Texto :: string
  Score :: real
  Matches :: int

section \<open>The text extractor\<close>

text \<open>\<open>os.path.basename\<close> and \<open>os.path.join\<close> of two components (POSIX).\<close>

definition basename :: "string \<Rightarrow> string" where
  "basename p = rev (takeWhile (\<lambda>c. c \<noteq> CHR ''/'') (rev p))"

definition os_path_join :: "string \<Rightarrow> string \<Rightarrow> string" where
  "os_path_join a b =
     (if startswith b ''/'' then b
      else if a = [] \<or> endswith a ''/'' then a @ b
      else a @ ''/'' @ b)"

text \<open>The body of the \<open>try\<close> of \<open>process_file\<close>: \<open>Inl\<close> is an exception raised in it.\<close>

definition read_document :: "'v env \<Rightarrow> string \<Rightarrow> string \<Rightarrow> error + string" where
  "read_document env file_path file_type =
     (if file_type = ''pdf'' then
        (case pdf_pages env file_path of
           Inl e \<Rightarrow> Inl e
         | Inr pages \<Rightarrow>
             Inr (join [CHR 0x0A] (map (\<lambda>page. case page of None \<Rightarrow> [] | Some t \<Rightarrow> t) pages)))
      else
        (case docx_paragraphs env file_path of
           Inl e \<Rightarrow> Inl e
         | Inr paragraphs \<Rightarrow>
             Inr (join [CHR 0x0A] (filter (\<lambda>p. strip (isspace env) p \<noteq> []) paragraphs))))"

definition try_process_file :: "'v env \<Rightarrow> string \<Rightarrow> string \<Rightarrow> error + string" where
  "try_process_file env file_path file_type =
     (case read_document env file_path file_type of
        Inl e \<Rightarrow> Inl e
      | Inr text \<Rightarrow>
          (if text \<noteq> [] then
             (case word_tokenize env text of
                Inl e \<Rightarrow> Inl e
              | Inr tokens \<Rightarrow> Inr (strip (isspace env) text))
           else Inr []))"

text \<open>\<open>process_file\<close>: the warnings it shows and the text it returns.\<close>

definition process_file :: "'v env \<Rightarrow> string \<Rightarrow> string \<Rightarrow> event list \<times> string" where
  "process_file env file_path file_type =
     (case try_process_file env file_path file_type of
        Inl e \<Rightarrow> ([WarningProcess (basename file_path) e], [])
      | Inr text \<Rightarrow> ([], text))"

section \<open>The batch ranker\<close>

record run_state =
  results :: "entry list"
  log :: "event list"

definition emit :: "event list \<Rightarrow> run_state \<Rightarrow> run_state" where
  "emit evs st = st\<lparr>log := log st @ evs\<rparr>"

definition is_candidate :: "string \<Rightarrow> bool" where
  "is_candidate f = (endswith (lower f) ''.pdf'' \<or> endswith (lower f) ''.docx'')"

definition file_type_of :: "string \<Rightarrow> string" where
  "file_type_of filename = (if endswith (lower filename) ''.pdf'' then ''pdf'' else ''docx'')"

text \<open>
  One pass through the body of the \<open>for\<close> loop, for the file \<open>filename\<close> at index \<open>i\<close> of
  the \<open>n\<close> valid files. The first component is the exception that left the loop, if any.
\<close>

definition loop_body ::
  "'v env \<Rightarrow> (string \<Rightarrow> error + 'v) \<Rightarrow> inputs \<Rightarrow> string list \<Rightarrow> nat \<Rightarrow> nat \<times> string \<Rightarrow> run_state
     \<Rightarrow> error option \<times> run_state" where
  "loop_body env model inp kws n x st =
     (case x of (i, filename) \<Rightarrow>
      (let file_path = os_path_join (folder_path inp) filename;
           file_type = file_type_of filename
       in case process_file env file_path file_type of (warnings, text) \<Rightarrow>
          (let st1 = emit (Extract file_path file_type # warnings) st
           in if text = [] then (None, st1)
              else (case analyze_resume (isprintable env) model (cos_sim env) text kws of
                      Inl e \<Rightarrow> (Some e, emit [Scored filename] st1)
                    | Inr (matches, score) \<Rightarrow>
                        (let st2 = emit [Scored filename] st1
                         in if matches < min_matches inp then (None, st2)
                            else
                              (let st3 =
                                     (if score \<ge> min_score inp
                                      then st2\<lparr>results := results st2 @
                                             [\<lparr>Arquivo = filename, Caminho = file_path,
                                               Tipo = file_type, Texto = text,
                                               Score = score, Matches = matches\<rparr>]\<rparr>
                                      else st2)
                               in (None, emit [Progress (real (i + 1) / real n)] st3)))))))"

fun batch_loop ::
  "'v env \<Rightarrow> (string \<Rightarrow> error + 'v) \<Rightarrow> inputs \<Rightarrow> string list \<Rightarrow> nat \<Rightarrow> (nat \<times> string) list
     \<Rightarrow> run_state \<Rightarrow> error option \<times> run_state" where
  "batch_loop env model inp kws n [] st = (None, st)"
| "batch_loop env model inp kws n (x # rest) st =
     (case loop_body env model inp kws n x st of
        (Some e, st') \<Rightarrow> (Some e, st')
      | (None, st') \<Rightarrow> batch_loop env model inp kws n rest st')"

definition enumerate :: "'a list \<Rightarrow> (nat \<times> 'a) list" where
  "enumerate xs = zip [0..<length xs] xs"

text \<open>
  \<open>sorted(results, key=lambda x: x['Score'], reverse=True)\<close>: a stable sort by the key; with
  \<open>reverse=True\<close> the list is reversed, sorted and reversed again.
\<close>

definition sorted_reverse :: "('a \<Rightarrow> 'k::linorder) \<Rightarrow> 'a list \<Rightarrow> 'a list" where
  "sorted_reverse key xs = rev (sort_key key (rev xs))"

datatype outcome =
    ModelLoadFailure
  | NotTriggered
  | FolderNotFound
  | NoCandidateFiles
  | NoQualifyingCandidates
  | UnexpectedRuntimeFailure error
  | Ranked "entry list"

text \<open>The \<open>try\<close> block of \<open>main\<close>, with the model loaded and the run triggered.\<close>

definition analyse ::
  "'v env \<Rightarrow> (string \<Rightarrow> error + 'v) \<Rightarrow> inputs \<Rightarrow> outcome \<times> event list" where
  "analyse env model inp =
     (let kws = job_keywords (isalnum env) (job_title inp) (job_desc inp) in
      case listdir env (folder_path inp) of
        Inl e \<Rightarrow> (UnexpectedRuntimeFailure e, [ErrorAnalysis e])
      | Inr names \<Rightarrow>
          (let valid_files = filter is_candidate names in
           if valid_files = [] then (NoCandidateFiles, [ErrorNoFiles])
           else
             (case batch_loop env model inp kws (length valid_files) (enumerate valid_files)
                     \<lparr>results = [], log = [Progress 0]\<rparr> of
                (Some e, st) \<Rightarrow> (UnexpectedRuntimeFailure e, log st @ [ErrorAnalysis e])
              | (None, st) \<Rightarrow>
                  (if results st = [] then (NoQualifyingCandidates, log st @ [WarningNoneQualified])
                   else
                     (let rs = sorted_reverse Score (results st)
                      in (Ranked rs,
                          log st @ [Success (length rs), Histogram (map Score rs),
                                    Dataframe (map (\<lambda>r. (Arquivo r, Score r, Matches r)) rs)]))))))"

definition main :: "'v env \<Rightarrow> inputs \<Rightarrow> outcome \<times> event list" where
  "main env inp =
     (case load_model env of
        Inl e \<Rightarrow> (ModelLoadFailure, [ErrorModelLoad e])
      | Inr model \<Rightarrow>
          (if button inp \<and> job_title inp \<noteq> [] \<and> folder_path inp \<noteq> []
                \<and> path_exists env (folder_path inp)
           then analyse env model inp
           else if \<not> path_exists env (folder_path inp) then (FolderNotFound, [ErrorFolderMissing])
           else (NotTriggered, [])))"

text \<open>The ranked list a run shows: empty when the run ends without one.\<close>

fun ranked :: "outcome \<Rightarrow> entry list" where
  "ranked (Ranked rs) = rs"
| "ranked _ = []"

section \<open>Reference notions of the specification\<close>

text \<open>
  The maximal non-empty runs of characters that satisfy \<open>P\<close>, from left to right. With
  \<open>P\<close> the word characters these are the words of a text; with \<open>P\<close> the characters that
  are not whitespace they are its whitespace-delimited tokens (\<open>str.split()\<close>).
\<close>

function runs :: "(char \<Rightarrow> bool) \<Rightarrow> string \<Rightarrow> string list" where
  "runs P s =
     (let s' = dropWhile (\<lambda>c. \<not> P c) s in
      if s' = [] then [] else takeWhile P s' # runs P (dropWhile P s'))"
  by pat_completeness auto
termination
proof (relation "measure (\<lambda>(P, s). length s)")
  fix P :: "char \<Rightarrow> bool" and s s' :: string
  assume s': "s' = dropWhile (\<lambda>c. \<not> P c) s" and ne: "s' \<noteq> []"
  from ne have "P (hd s')"
    unfolding s' using hd_dropWhile [of "\<lambda>c. \<not> P c" s] by simp
  with ne have "length (dropWhile P s') < length s'"
    by (cases s') (simp_all add: less_Suc_eq_le length_dropWhile_le)
  moreover have "length s' \<le> length s"
    unfolding s' by (rule length_dropWhile_le)
  ultimately show "((P, dropWhile P s'), (P, s)) \<in> measure (\<lambda>(P, s). length s)"
    by simp
qed auto

declare runs.simps [simp del]

text \<open>
  The keyword list as the specification words it: the title, then the whitespace-delimited
  tokens of the description that have four characters or more.
\<close>

definition spec_keywords :: "(char \<Rightarrow> bool) \<Rightarrow> string \<Rightarrow> string \<Rightarrow> string list" where
  "spec_keywords space title desc =
     title # filter (\<lambda>w. 4 \<le> length w) (runs (\<lambda>c. \<not> space c) desc)"

text \<open>How many times \<open>sub\<close> occurs in \<open>s\<close>: the number of positions where it starts.\<close>

fun occurrences :: "string \<Rightarrow> string \<Rightarrow> nat" where
  "occurrences sub [] = (if sub = [] then 1 else 0)"
| "occurrences sub (c # s) = (if startswith (c # s) sub then 1 else 0) + occurrences sub s"

text \<open>
  A name has the extension \<open>ext\<close>, case-insensitively, when its last characters, lowered,
  are \<open>ext\<close>.
\<close>

definition has_extension :: "string \<Rightarrow> string \<Rightarrow> bool" where
  "has_extension f ext =
     (length ext \<le> length f \<and> lower (drop (length f - length ext) f) = ext)"

text \<open>The files a folder contains: the names of its listing that are regular files.\<close>

definition files_in :: "'v env \<Rightarrow> string \<Rightarrow> string list" where
  "files_in env folder =
     (case listdir env folder of
        Inl e \<Rightarrow> []
      | Inr names \<Rightarrow> filter (\<lambda>name. isfile env (os_path_join folder name)) names)"

text \<open>The values shown by the progress bar, in order.\<close>

fun progress_values :: "event list \<Rightarrow> real list" where
  "progress_values [] = []"
| "progress_values (Progress x # evs) = x # progress_values evs"
| "progress_values (ev # evs) = progress_values evs"

text \<open>The files for which \<open>analyze_resume\<close> was called, in order.\<close>

fun scored_files :: "event list \<Rightarrow> string list" where
  "scored_files [] = []"
| "scored_files (Scored f # evs) = f # scored_files evs"
| "scored_files (ev # evs) = scored_files evs"

text \<open>The files for which \<open>process_file\<close> was called, in order.\<close>

fun extracted_paths :: "event list \<Rightarrow> string list" where
  "extracted_paths [] = []"
| "extracted_paths (Extract p t # evs) = p # extracted_paths evs"
| "extracted_paths (ev # evs) = extracted_paths evs"

text \<open>
  What the loop guarantees of an entry it appends: its path, type and text are those of
  its file, the text is not empty, and its score and match count are those the scorer
  returned for that text and passed both thresholds.
\<close>

definition accepted ::
  "'v env \<Rightarrow> (string \<Rightarrow> error + 'v) \<Rightarrow> inputs \<Rightarrow> string list \<Rightarrow> entry \<Rightarrow> bool" where
  "accepted env model inp kws r =
     (Caminho r = os_path_join (folder_path inp) (Arquivo r)
      \<and> Tipo r = file_type_of (Arquivo r)
      \<and> Texto r = snd (process_file env (Caminho r) (Tipo r))
      \<and> Texto r \<noteq> []
      \<and> analyze_resume (isprintable env) model (cos_sim env) (Texto r) kws
            = Inr (Matches r, Score r)
      \<and> min_matches inp \<le> Matches r
      \<and> min_score inp \<le> Score r)"

section \<open>A sample environment\<close>

text \<open>
  Five folders: \<open>/cvs\<close> with five candidate files and a text file, \<open>/one\<close> with a single PDF
  whose text is the title three times, \<open>/scan\<close> with a single PDF without text, \<open>/misc\<close>
  without candidate files, \<open>/arch\<close> whose only entry is a sub-directory named \<open>old.pdf\<close>.
  Texts are ASCII; the embedding of a text is the text itself.
\<close>

definition ascii_alnum :: "char \<Rightarrow> bool" where
  "ascii_alnum c =
     (c \<in> set ''abcdefghijklmnopqrstuvwxyzABCDEFGHIJKLMNOPQRSTUVWXYZ0123456789'')"

definition ascii_space :: "char \<Rightarrow> bool" where
  "ascii_space c =
     (c \<in> set [CHR 0x09, CHR 0x0A, CHR 0x0B, CHR 0x0C, CHR 0x0D,
                CHR 0x1C, CHR 0x1D, CHR 0x1E, CHR 0x1F, CHR 0x20])"

definition sample_env :: "string env" where
  "sample_env =
     \<lparr>isalnum = ascii_alnum,
      isspace = ascii_space,
      isprintable = (\<lambda>c. False),
      load_model = Inr (\<lambda>t. Inr t),
      cos_sim = (\<lambda>job resume.
        if job = resume then 1
        else if resume = ''Senior Dev'' @ [CHR 0x0A] @ ''Python'' then 3 / 4
        else 1 / 2),
      path_exists = (\<lambda>p. p \<in> set [''/cvs'', ''/one'', ''/scan'', ''/misc'', ''/arch'']),
      isfile = (\<lambda>p. p \<in> set [''/cvs/ana.pdf'', ''/cvs/notes.txt'', ''/cvs/bob.DOCX'',
        ''/cvs/eva.pdf'', ''/cvs/caio.docx'', ''/cvs/dan.pdf'', ''/one/cv.pdf'',
        ''/scan/scan.pdf'', ''/misc/notes.txt'', ''/misc/photo.png'']),
      listdir = (\<lambda>p.
        if p = ''/cvs'' then
          Inr [''ana.pdf'', ''notes.txt'', ''bob.DOCX'', ''eva.pdf'', ''caio.docx'', ''dan.pdf'']
        else if p = ''/one'' then Inr [''cv.pdf'']
        else if p = ''/scan'' then Inr [''scan.pdf'']
        else if p = ''/misc'' then Inr [''notes.txt'', ''photo.png'']
        else if p = ''/arch'' then Inr [''old.pdf'']
        else Inl (Exception ''FileNotFoundError'')),
      pdf_pages = (\<lambda>p.
        if p = ''/cvs/ana.pdf'' then Inr [Some ''Dev Dev Dev'']
        else if p = ''/cvs/eva.pdf'' then Inr [None, Some []]
        else if p = ''/cvs/dan.pdf'' then Inr [Some '' Dev'']
        else if p = ''/one/cv.pdf'' then Inr [Some ''Dev Dev Dev'']
        else if p = ''/scan/scan.pdf'' then Inr [None]
        else if p = ''/arch/old.pdf'' then Inl (Exception ''IsADirectoryError'')
        else Inl (Exception ''PDFSyntaxError'')),
      docx_paragraphs = (\<lambda>p.
        if p = ''/cvs/bob.DOCX'' then Inr [''Senior Dev'', ''  '', ''Python'']
        else Inl (Exception ''PackageNotFoundError'')),
      word_tokenize = (\<lambda>t. Inr [])\<rparr>"

definition sample_inputs :: "string \<Rightarrow> string \<Rightarrow> inputs" where
  "sample_inputs folder desc =
     \<lparr>button = True, job_title = ''Dev'', job_desc = desc, folder_path = folder,
      min_score = 0, min_matches = 1\<rparr>"

text \<open>What the run on the folder \<open>/cvs\<close> shows, for the description \<open>Python data-driven\<close>.\<close>

definition sample_ranking :: "entry list" where
  "sample_ranking =
     [\<lparr>Arquivo = ''bob.DOCX'', Caminho = ''/cvs/bob.DOCX'', Tipo = ''docx'',
       Texto = ''Senior Dev'' @ [CHR 0x0A] @ ''Python'', Score = 3 / 4, Matches = 2\<rparr>,
      \<lparr>Arquivo = ''ana.pdf'', Caminho = ''/cvs/ana.pdf'', Tipo = ''pdf'',
       Texto = ''Dev Dev Dev'', Score = 1 / 2, Matches = 1\<rparr>,
      \<lparr>Arquivo = ''dan.pdf'', Caminho = ''/cvs/dan.pdf'', Tipo = ''pdf'',
       Texto = ''Dev'', Score = 1 / 2, Matches = 1\<rparr>]"

definition sample_log :: "event list" where
  "sample_log =
     [Progress 0,
      Extract ''/cvs/ana.pdf'' ''pdf'', Scored ''ana.pdf'', Progress (1 / 5),
      Extract ''/cvs/bob.DOCX'' ''docx'', Scored ''bob.DOCX'', Progress (2 / 5),
      Extract ''/cvs/eva.pdf'' ''pdf'',
      Extract ''/cvs/caio.docx'' ''docx'',
      WarningProcess ''caio.docx'' (Exception ''PackageNotFoundError''),
      Extract ''/cvs/dan.pdf'' ''pdf'', Scored ''dan.pdf'', Progress 1,
      Success 3, Histogram [3 / 4, 1 / 2, 1 / 2],
      Dataframe [(''bob.DOCX'', 3 / 4, 2), (''ana.pdf'', 1 / 2, 1), (''dan.pdf'', 1 / 2, 1)]]"

section \<open>Properties of the string operations\<close>

lemma startswith_iff_prefix: "startswith s p \<longleftrightarrow> prefix p s"
  by (induction s p rule: startswith.induct) auto

lemma startswith_append: "startswith s p \<longleftrightarrow> (\<exists>suf. s = p @ suf)"
  by (simp add: startswith_iff_prefix prefix_def)

lemma endswith_append: "endswith s p \<longleftrightarrow> (\<exists>pre. s = pre @ p)"
  by (simp add: endswith_def startswith_iff_prefix flip: suffix_to_prefix) (auto simp: suffix_def)

lemma py_in_iff: "py_in sub s \<longleftrightarrow> (\<exists>pre suf. s = pre @ sub @ suf)"
proof (induction s)
  case Nil
  show ?case by simp
next
  case (Cons c s)
  show ?case
  proof
    assume "py_in sub (c # s)"
    then consider "startswith (c # s) sub" | "py_in sub s" by auto
    then show "\<exists>pre suf. c # s = pre @ sub @ suf"
    proof cases
      case 1
      then obtain suf where "c # s = sub @ suf" by (auto simp: startswith_append)
      then have "c # s = [] @ sub @ suf" by simp
      then show ?thesis by blast
    next
      case 2
      with Cons.IH obtain pre suf where "s = pre @ sub @ suf" by blast
      then have "c # s = (c # pre) @ sub @ suf" by simp
      then show ?thesis by blast
    qed
  next
    assume "\<exists>pre suf. c # s = pre @ sub @ suf"
    then obtain pre suf where eq: "c # s = pre @ sub @ suf" by blast
    show "py_in sub (c # s)"
    proof (cases pre)
      case Nil
      with eq have "startswith (c # s) sub" by (auto simp: startswith_append)
      then show ?thesis by simp
    next
      case (Cons d pre')
      with eq have "s = pre' @ sub @ suf" by simp
      with Cons.IH have "py_in sub s" by blast
      then show ?thesis by simp
    qed
  qed
qed

lemma occurrences_pos_iff: "0 < occurrences sub s \<longleftrightarrow> py_in sub s"
  by (induction s) auto

lemma has_extension_iff: "has_extension f ext \<longleftrightarrow> endswith (lower f) ext"
proof
  assume "has_extension f ext"
  then have len: "length ext \<le> length f" and e: "lower (drop (length f - length ext) f) = ext"
    by (simp_all add: has_extension_def)
  have "lower f = lower (take (length f - length ext) f) @ lower (drop (length f - length ext) f)"
    unfolding lower_def by (simp flip: map_append)
  with e show "endswith (lower f) ext"
    by (auto simp: endswith_append)
next
  assume "endswith (lower f) ext"
  then obtain pre where p: "lower f = pre @ ext" by (auto simp: endswith_append)
  then have l: "length f = length pre + length ext"
    by (metis length_append length_map lower_def)
  have "lower (drop (length f - length ext) f) = drop (length pre) (lower f)"
    using l by (simp add: lower_def drop_map)
  with p l show "has_extension f ext"
    by (simp add: has_extension_def)
qed

section \<open>The scorer\<close>

lemma count_matches_length:
  "count_matches text kws = int (length (filter (\<lambda>keyword. py_in keyword text) kws))"
  unfolding count_matches_def by (induction kws) simp_all

lemma card_positions_le: "card {i. i < length xs \<and> P i} \<le> length xs"
proof -
  have "card {i. i < length xs \<and> P i} \<le> card {..<length xs}"
    by (rule card_mono) auto
  then show ?thesis by simp
qed

lemma count_matches_card:
  "count_matches text kws
     = int (card {i. i < length kws \<and> (\<exists>pre suf. text = pre @ kws ! i @ suf)})
   \<and> count_matches text kws \<le> int (length kws)"
  by (simp add: count_matches_length length_filter_conv_card py_in_iff card_positions_le)

text \<open>The scorer returns whenever the model encodes both strings.\<close>

lemma analyze_resume_returns:
  assumes "encode (str_of_list printable kws) = Inr job_embedding"
    and "encode text = Inr resume_embedding"
  shows "analyze_resume printable encode cosine text kws
           = Inr (count_matches text kws, cosine job_embedding resume_embedding)"
  using assms by (simp add: analyze_resume_def)

lemma analyze_resume_matches:
  assumes "analyze_resume printable encode cosine text kws = Inr (matches, score)"
  shows "matches = count_matches text kws"
  using assms by (auto simp: analyze_resume_def Let_def split: sum.splits)

text \<open>
  Claim C10. The match count that \<open>analyze_resume\<close> returns is the number of positions of
  the keyword list whose keyword occurs as a substring of the text: a position counts
  once, however often its keyword occurs, so the count is at most the length of the
  keyword list.
\<close>

theorem C10_match_count:
  assumes "analyze_resume printable encode cosine text kws = Inr (matches, score)"
  shows "matches = int (card {i. i < length kws \<and> (\<exists>pre suf. text = pre @ kws ! i @ suf)})
       \<and> matches \<le> int (length kws)"
  using analyze_resume_matches [OF assms] count_matches_card [of "text" kws] by simp

text \<open>
  Claim C10 in the sample environment: the text holds \<open>Dev\<close> three times and the keyword
  list holds it twice; each of the two positions counts once, \<open>Python\<close> does not occur.
\<close>

theorem C10_witness:
  "analyze_resume (\<lambda>c. False) (\<lambda>t. Inr t) (cos_sim sample_env) ''Dev Dev Dev''
       [''Dev'', ''Python'', ''Dev''] = Inr (2, 1 / 2)
   \<and> 2 = int (card {i. i < length [''Dev'', ''Python'', ''Dev'']
                      \<and> (\<exists>pre suf. ''Dev Dev Dev'' = pre @ [''Dev'', ''Python'', ''Dev''] ! i @ suf)})
   \<and> (2 :: int) \<le> int (length [''Dev'', ''Python'', ''Dev''])"
proof -
  have run: "analyze_resume (\<lambda>c. False) (\<lambda>t. Inr t) (cos_sim sample_env) ''Dev Dev Dev''
       [''Dev'', ''Python'', ''Dev''] = Inr (2, 1 / 2)"
    by code_simp
  note c10 = C10_match_count [OF run]
  from c10 have count: "2 = int (card {i. i < length [''Dev'', ''Python'', ''Dev'']
                      \<and> (\<exists>pre suf. ''Dev Dev Dev'' = pre @ [''Dev'', ''Python'', ''Dev''] ! i @ suf)})" ..
  from c10 have bound: "(2 :: int) \<le> int (length [''Dev'', ''Python'', ''Dev''])" ..
  from run count bound show ?thesis by (intro conjI)
qed

section \<open>The job profile\<close>


lemma runs_Nil: "runs P [] = []"
  by (simp add: runs.simps)

lemma runs_skip: "\<not> P c \<Longrightarrow> runs P (c # s) = runs P s"
  by (subst (1 2) runs.simps) simp

lemma runs_word:
  assumes "P c"
  shows "runs P (c # s) = takeWhile P (c # s) # runs P (dropWhile P (c # s))"
  using assms by (subst runs.simps) simp

lemma runs_block:
  assumes "\<forall>c\<in>set u. P c" and "u \<noteq> []" and "v = [] \<or> \<not> P (hd v)"
  shows "runs P (u @ v) = u # runs P v"
proof -
  from assms(2) obtain c u' where u: "u = c # u'" by (cases u) auto
  from assms(1,3) have tw: "takeWhile P (u @ v) = u"
    by (cases v) (auto simp: takeWhile_append2 )
  from assms(1,3) have dw: "dropWhile P (u @ v) = v"
    by (cases v) (auto simp: dropWhile_append2)
  from assms(1) u have "P c" by simp
  then have "runs P (c # u' @ v) = takeWhile P (c # u' @ v) # runs P (dropWhile P (c # u' @ v))"
    by (rule runs_word)
  with tw dw u show ?thesis by simp
qed

lemma findall_w4_runs:
  "findall_w4 alnum s = filter (\<lambda>w. 4 \<le> length w) (runs (is_word alnum) s)"
proof (induction s rule: length_induct)
  case (1 s)
  let ?W = "is_word alnum"
  show ?case
  proof (cases s)
    case Nil
    then show ?thesis by (simp add: findall_w4.simps runs_Nil)
  next
    case (Cons c t)
    have IHt: "findall_w4 alnum t = filter (\<lambda>w. 4 \<le> length w) (runs ?W t)"
      using 1 Cons by simp
    show ?thesis
    proof (cases "?W c")
      case False
      then have "takeWhile ?W s = []" using Cons by simp
      then have "findall_w4 alnum s = findall_w4 alnum t"
        using Cons by (subst findall_w4.simps) simp
      with IHt False Cons show ?thesis by (simp add: runs_skip)
    next
      case True
      define m where "m = takeWhile ?W s"
      define r where "r = dropWhile ?W s"
      have s: "s = m @ r" by (simp add: m_def r_def)
      have mne: "m \<noteq> []" using True Cons by (simp add: m_def)
      have mall: "\<forall>c\<in>set m. ?W c" unfolding m_def by (auto dest: set_takeWhileD)
      have rhd: "r = [] \<or> \<not> ?W (hd r)"
        unfolding r_def using hd_dropWhile [of ?W s] by blast
      have dr: "drop (length m) s = r" using s by simp
      have "runs ?W (c # t) = takeWhile ?W (c # t) # runs ?W (dropWhile ?W (c # t))"
        using True by (rule runs_word)
      then have rs: "runs ?W s = m # runs ?W r"
        using Cons by (simp add: m_def r_def)
      have rlen: "length r < length s" using s mne by simp
      then have IHr: "findall_w4 alnum r = filter (\<lambda>w. 4 \<le> length w) (runs ?W r)"
        using 1 by simp
      show ?thesis
      proof (cases "4 \<le> length m")
        case long: True
        then have "findall_w4 alnum s = m # findall_w4 alnum (drop (length m) s)"
          by (subst findall_w4.simps) (simp add: m_def Let_def)
        then have "findall_w4 alnum s = m # findall_w4 alnum r"
          by (simp only: dr)
        with IHr rs long show ?thesis by simp
      next
        case short: False
        then have "findall_w4 alnum s = (case s of [] \<Rightarrow> [] | c # t \<Rightarrow> findall_w4 alnum t)"
          by (subst findall_w4.simps) (simp add: m_def Let_def)
        then have f: "findall_w4 alnum s = findall_w4 alnum t"
          using Cons by simp
        from mne True Cons have mc: "m = c # tl m"
          by (simp add: m_def)
        with s Cons have t: "t = tl m @ r" by (metis append_Cons list.inject)
        have "filter (\<lambda>w. 4 \<le> length w) (runs ?W t) = filter (\<lambda>w. 4 \<le> length w) (runs ?W r)"
        proof (cases "tl m = []")
          case True
          with t show ?thesis by simp
        next
          case False
          have "\<forall>c\<in>set (tl m). ?W c" using mall mc by (metis list.set_intros(2))
          from runs_block [OF this False rhd] t short show ?thesis by simp
        qed
        with f IHt rs short show ?thesis by simp
      qed
    qed
  qed
qed

text \<open>
  Claim C3, as amended. The keyword list is the title followed by the words of the
  description (maximal runs of alphanumeric characters and underscores) that have four
  characters or more, as they are written, from left to right, repeated when they are
  repeated. Punctuation delimits a word as whitespace does, and the test \<open>len(word) > 3\<close>
  removes nothing.
\<close>

theorem C3_keywords_are_long_words:
  "job_keywords alnum title desc
     = title # filter (\<lambda>w. 4 \<le> length w) (runs (is_word alnum) desc)"
proof -
  have "\<And>w :: string. (4 \<le> length w \<and> 3 < length w) = (4 \<le> length w)"
    by auto
  then show ?thesis
    by (simp add: job_keywords_def findall_w4_runs)
qed

text \<open>
  Claim C3 as stated fails: the hyphen of \<open>data-driven\<close> ends a word, so the description
  gives two keywords where its only whitespace-delimited token is \<open>data-driven\<close>.
\<close>

theorem C3_counterexample:
  "job_keywords ascii_alnum ''Dev'' ''data-driven'' = [''Dev'', ''data'', ''driven'']
   \<and> spec_keywords ascii_space ''Dev'' ''data-driven'' = [''Dev'', ''data-driven'']"
  by code_simp

section \<open>The similarity score\<close>


lemma length_repr_char: "1 \<le> length (repr_char printable quote ch)"
  by (simp add: repr_char_def Let_def)

lemma length_concat_repr_char:
  "length s \<le> length (concat (map (repr_char printable quote) s))"
proof (induction s)
  case Nil
  show ?case by simp
next
  case (Cons c s)
  with length_repr_char [of printable quote c] show ?case by simp
qed

lemma length_repr_str: "length s + 2 \<le> length (repr_str printable s)"
  using length_concat_repr_char [of s printable]
  by (simp add: repr_str_def Let_def)

lemma length_join: "length (concat xs) \<le> length (join sep xs)"
  by (induction sep xs rule: join.induct) simp_all

lemma length_concat_map_repr_str:
  "length (concat xs) \<le> length (concat (map (repr_str printable) xs))"
proof (induction xs)
  case Nil
  show ?case by simp
next
  case (Cons x xs)
  with length_repr_str [of x printable] show ?case by simp
qed

lemma str_of_list_longer: "length (concat xs) < length (str_of_list printable xs)"
proof -
  have "length (concat xs) \<le> length (join '', '' (map (repr_str printable) xs))"
    using length_concat_map_repr_str [of xs printable]
      length_join [of "map (repr_str printable) xs" "'', ''"]
    by linarith
  then show ?thesis by (simp add: str_of_list_def)
qed

lemma str_of_list_neq_concat: "str_of_list printable xs \<noteq> concat xs"
  using str_of_list_longer [of xs printable] by auto

text \<open>
  Claim C7, as amended. The similarity score of a document is the cosine similarity
  between the embedding of the text of the keyword list, which is the list as Python
  prints it (brackets, every keyword quoted, commas between them), and the embedding of
  the document's text. That string is never the concatenation of the keywords
  (\<open>str_of_list_neq_concat\<close>).
\<close>

theorem C7_similarity_of_list_text:
  assumes "analyze_resume printable encode cosine text kws = Inr (matches, score)"
  shows "\<exists>job_embedding resume_embedding.
           encode (str_of_list printable kws) = Inr job_embedding
         \<and> encode text = Inr resume_embedding
         \<and> score = cosine job_embedding resume_embedding"
  using assms by (auto simp: analyze_resume_def Let_def split: sum.splits)

theorem C7_witness:
  "analyze_resume (\<lambda>c. False) (\<lambda>t. Inr t) (cos_sim sample_env) ''Dev'' [''Dev'', ''Python'']
     = Inr (1, 1 / 2)
   \<and> 1 / 2 = cos_sim sample_env (str_of_list (\<lambda>c. False) [''Dev'', ''Python'']) ''Dev''"
proof -
  have run: "analyze_resume (\<lambda>c. False) (\<lambda>t. Inr t) (cos_sim sample_env) ''Dev'' [''Dev'', ''Python'']
     = Inr (1, 1 / 2)"
    by (simp add: analyze_resume_def count_matches_def sample_env_def str_of_list_def
        repr_str_def repr_char_def Let_def)
  from C7_similarity_of_list_text [OF run] run show ?thesis by auto
qed

text \<open>
  Claim C7 as stated fails: with the keyword list \<open>['Dev']\<close> the model is given the seven
  characters \<open>['Dev']\<close>, not \<open>Dev\<close>; in the sample environment the score of the text
  \<open>Dev\<close> is then 1/2, where the similarity with the concatenated keywords is 1.
\<close>

theorem C7_counterexample:
  "analyze_resume (\<lambda>c. False) (\<lambda>t. Inr t) (cos_sim sample_env) ''Dev'' [''Dev'']
     = Inr (1, 1 / 2)
   \<and> cos_sim sample_env (concat [''Dev'']) ''Dev'' = 1
   \<and> str_of_list (\<lambda>c. False) [''Dev''] = ''['' @ [CHR 0x27] @ ''Dev'' @ [CHR 0x27] @ '']''"
  by (simp add: analyze_resume_def count_matches_def sample_env_def str_of_list_def
        repr_str_def repr_char_def Let_def)

section \<open>Invariants of the batch loop\<close>


lemma scored_files_append: "scored_files (xs @ ys) = scored_files xs @ scored_files ys"
  by (induction xs rule: scored_files.induct) simp_all

lemma extracted_paths_append: "extracted_paths (xs @ ys) = extracted_paths xs @ extracted_paths ys"
  by (induction xs rule: extracted_paths.induct) simp_all

lemma progress_values_append: "progress_values (xs @ ys) = progress_values xs @ progress_values ys"
  by (induction xs rule: progress_values.induct) simp_all

lemma process_file_warnings:
  assumes "process_file env p t = (warnings, text)"
  shows "scored_files warnings = []" and "extracted_paths warnings = []"
    and "progress_values warnings = []"
  using assms by (auto simp: process_file_def split: sum.splits)

lemma process_file_text:
  "snd (process_file env p t) = (case try_process_file env p t of Inl e \<Rightarrow> [] | Inr text \<Rightarrow> text)"
  by (simp add: process_file_def split: sum.splits)

text \<open>One pass of the loop body appends at most one entry, and only an accepted one.\<close>

lemma loop_body_results:
  assumes "loop_body env model inp kws n (i, f) st = (err, st')"
  shows "results st' = results st
         \<or> (\<exists>r. results st' = results st @ [r] \<and> Arquivo r = f
                 \<and> accepted env model inp kws r)"
  using assms
  by (auto simp: loop_body_def emit_def accepted_def Let_def
           split: prod.splits sum.splits if_splits)

lemma loop_body_scored:
  assumes "loop_body env model inp kws n (i, f) st = (err, st')"
  shows "\<exists>evs. log st' = log st @ evs
          \<and> (scored_files evs = []
              \<or> scored_files evs = [f]
                 \<and> snd (process_file env (os_path_join (folder_path inp) f) (file_type_of f)) \<noteq> [])"
  using assms
  by (auto simp: loop_body_def emit_def Let_def scored_files_append
           dest: process_file_warnings(1) split: prod.splits sum.splits if_splits)

lemma batch_loop_results:
  assumes "batch_loop env model inp kws n xs st = (err, st')"
  shows "\<exists>ys. results st' = results st @ ys
              \<and> subseq (map Arquivo ys) (map snd xs)
              \<and> (\<forall>r\<in>set ys. accepted env model inp kws r)"
  using assms
proof (induction xs arbitrary: st)
  case Nil
  then show ?case by simp
next
  case (Cons x xs)
  obtain i f where x: "x = (i, f)" by (cases x)
  obtain e1 st1 where body: "loop_body env model inp kws n (i, f) st = (e1, st1)"
    by (cases "loop_body env model inp kws n (i, f) st")
  from loop_body_results [OF body]
  obtain zs where zs: "results st1 = results st @ zs" "subseq (map Arquivo zs) [f]"
    "\<forall>r\<in>set zs. accepted env model inp kws r"
  proof
    assume "results st1 = results st"
    then show ?thesis using that [of "[]"] by simp
  next
    assume "\<exists>r. results st1 = results st @ [r] \<and> Arquivo r = f \<and> accepted env model inp kws r"
    then obtain r where "results st1 = results st @ [r]" "Arquivo r = f"
      "accepted env model inp kws r" by blast
    then show ?thesis using that [of "[r]"] by simp
  qed
  show ?case
  proof (cases e1)
    case (Some e)
    with Cons.prems body x have "st' = st1" by simp
    with zs have "results st' = results st @ zs" by simp
    moreover have "subseq (map Arquivo zs @ []) ([f] @ map snd xs)"
      using zs(2) by (rule list_emb_append_mono) simp
    then have "subseq (map Arquivo zs) (map snd (x # xs))"
      using x by simp
    ultimately show ?thesis using zs(3) by blast
  next
    case None
    with Cons.prems body x have "batch_loop env model inp kws n xs st1 = (err, st')" by simp
    from Cons.IH [OF this] obtain ys where ys: "results st' = results st1 @ ys"
      "subseq (map Arquivo ys) (map snd xs)" "\<forall>r\<in>set ys. accepted env model inp kws r"
      by blast
    have "results st' = results st @ (zs @ ys)" using zs(1) ys(1) by simp
    moreover have "subseq (map Arquivo (zs @ ys)) (map snd (x # xs))"
      using list_emb_append_mono [OF zs(2) ys(2)] x by simp
    moreover have "\<forall>r\<in>set (zs @ ys). accepted env model inp kws r"
      using zs(3) ys(3) by auto
    ultimately show ?thesis by blast
  qed
qed

lemma batch_loop_scored:
  assumes "batch_loop env model inp kws n xs st = (err, st')"
  shows "\<exists>evs. log st' = log st @ evs
          \<and> (\<forall>f\<in>set (scored_files evs).
                snd (process_file env (os_path_join (folder_path inp) f) (file_type_of f)) \<noteq> [])"
  using assms
proof (induction xs arbitrary: st)
  case Nil
  then show ?case by simp
next
  case (Cons x xs)
  obtain i f where x: "x = (i, f)" by (cases x)
  obtain e1 st1 where body: "loop_body env model inp kws n (i, f) st = (e1, st1)"
    by (cases "loop_body env model inp kws n (i, f) st")
  from loop_body_scored [OF body]
  obtain evs1 where evs1: "log st1 = log st @ evs1"
    "\<forall>g\<in>set (scored_files evs1).
        snd (process_file env (os_path_join (folder_path inp) g) (file_type_of g)) \<noteq> []"
    by auto
  show ?case
  proof (cases e1)
    case (Some e)
    with Cons.prems body x have "st' = st1" by simp
    with evs1 show ?thesis by blast
  next
    case None
    with Cons.prems body x have "batch_loop env model inp kws n xs st1 = (err, st')" by simp
    from Cons.IH [OF this] obtain evs2 where evs2: "log st' = log st1 @ evs2"
      "\<forall>g\<in>set (scored_files evs2).
          snd (process_file env (os_path_join (folder_path inp) g) (file_type_of g)) \<noteq> []"
      by blast
    have "log st' = log st @ (evs1 @ evs2)" using evs1(1) evs2(1) by simp
    moreover have "\<forall>g\<in>set (scored_files (evs1 @ evs2)).
          snd (process_file env (os_path_join (folder_path inp) g) (file_type_of g)) \<noteq> []"
      using evs1(2) evs2(2) by (auto simp: scored_files_append)
    ultimately show ?thesis by blast
  qed
qed

section \<open>The ranked list\<close>


lemma map_snd_enumerate: "map snd (enumerate xs) = xs"
  by (simp add: enumerate_def)

lemma set_sorted_reverse: "set (sorted_reverse key xs) = set xs"
  by (simp add: sorted_reverse_def)

lemma sorted_reverse_descending:
  "sorted_wrt (\<lambda>a b. key a \<ge> key b) (sorted_reverse key xs)"
proof -
  have "sorted (map key (sort_key key (rev xs)))" by (rule sorted_sort_key)
  then have "sorted_wrt (\<lambda>a b. key a \<le> key b) (sort_key key (rev xs))"
    by (simp add: sorted_map)
  then show ?thesis
    by (simp add: sorted_reverse_def sorted_wrt_rev)
qed

lemma sorted_reverse_stable:
  "filter (\<lambda>x. key x = k) (sorted_reverse key xs) = filter (\<lambda>x. key x = k) xs"
proof -
  have "filter (\<lambda>x. key x = k) (sorted_reverse key xs)
          = rev (filter (\<lambda>x. key x = k) (sort_key key (rev xs)))"
    by (simp add: sorted_reverse_def rev_filter)
  also have "\<dots> = rev (filter (\<lambda>x. key x = k) (rev xs))"
    by (simp only: sort_key_stable)
  also have "\<dots> = filter (\<lambda>x. key x = k) xs"
    by (simp add: rev_filter)
  finally show ?thesis .
qed

text \<open>What a run that ends with a ranked list has done.\<close>

lemma main_ranked:
  assumes "main env inp = (Ranked rs, evs)"
  obtains model names st where
    "load_model env = Inr model"
    "listdir env (folder_path inp) = Inr names"
    "batch_loop env model inp (job_keywords (isalnum env) (job_title inp) (job_desc inp))
       (length (filter is_candidate names)) (enumerate (filter is_candidate names))
       \<lparr>results = [], log = [Progress 0]\<rparr> = (None, st)"
    "rs = sorted_reverse Score (results st)"
  using assms
  by (auto simp: main_def analyse_def Let_def
           split: sum.splits if_splits prod.splits option.splits)

lemma main_ranked_entries:
  assumes "main env inp = (Ranked rs, evs)" and "listdir env (folder_path inp) = Inr names"
  obtains model ys where
    "load_model env = Inr model"
    "rs = sorted_reverse Score ys"
    "subseq (map Arquivo ys) (filter is_candidate names)"
    "\<forall>r\<in>set ys. accepted env model inp
        (job_keywords (isalnum env) (job_title inp) (job_desc inp)) r"
proof -
  from assms(1) obtain model names' st where m: "load_model env = Inr model"
    and l: "listdir env (folder_path inp) = Inr names'"
    and b: "batch_loop env model inp (job_keywords (isalnum env) (job_title inp) (job_desc inp))
       (length (filter is_candidate names')) (enumerate (filter is_candidate names'))
       \<lparr>results = [], log = [Progress 0]\<rparr> = (None, st)"
    and r: "rs = sorted_reverse Score (results st)"
    by (rule main_ranked)
  from l assms(2) have n: "names' = names" by simp
  from batch_loop_results [OF b] obtain ys where
    "results st = ys" "subseq (map Arquivo ys) (filter is_candidate names)"
    "\<forall>r\<in>set ys. accepted env model inp
        (job_keywords (isalnum env) (job_title inp) (job_desc inp)) r"
    by (auto simp: map_snd_enumerate n)
  with m r that show ?thesis by blast
qed

text \<open>
  Claim C1. Whatever the two thresholds are, every entry of the ranked list a run ends
  with has a match count of at least \<open>min_matches\<close> and a score of at least \<open>min_score\<close>.
\<close>

theorem C1_entries_pass_thresholds:
  assumes "main env inp = (Ranked rs, evs)"
  shows "\<forall>r\<in>set rs. min_matches inp \<le> Matches r \<and> min_score inp \<le> Score r"
proof -
  from assms obtain model names st where m: "load_model env = Inr model"
    and b: "batch_loop env model inp (job_keywords (isalnum env) (job_title inp) (job_desc inp))
       (length (filter is_candidate names)) (enumerate (filter is_candidate names))
       \<lparr>results = [], log = [Progress 0]\<rparr> = (None, st)"
    and r: "rs = sorted_reverse Score (results st)"
    by (rule main_ranked)
  from batch_loop_results [OF b] have
    "\<forall>r\<in>set (results st). accepted env model inp
        (job_keywords (isalnum env) (job_title inp) (job_desc inp)) r"
    by auto
  then show ?thesis
    by (simp add: r set_sorted_reverse accepted_def)
qed

text \<open>
  Claim C5. The ranked list is in descending order of score, and the entries of one score
  are in the order in which their files were enumerated: their file names, in the order
  of the list, are a subsequence of the valid files of the directory listing.
\<close>

theorem C5_sorted_descending_stable:
  assumes "main env inp = (Ranked rs, evs)" and "listdir env (folder_path inp) = Inr names"
  shows "sorted_wrt (\<lambda>a b. Score a \<ge> Score b) rs
       \<and> (\<forall>s. subseq (map Arquivo (filter (\<lambda>r. Score r = s) rs)) (filter is_candidate names))"
proof -
  from assms obtain model ys where rs: "rs = sorted_reverse Score ys"
    and sub: "subseq (map Arquivo ys) (filter is_candidate names)"
    by (rule main_ranked_entries)
  have "subseq (map Arquivo (filter (\<lambda>r. Score r = s) rs)) (filter is_candidate names)" for s
  proof -
    have "filter (\<lambda>r. Score r = s) rs = filter (\<lambda>r. Score r = s) ys"
      unfolding rs by (rule sorted_reverse_stable)
    moreover have "subseq (map Arquivo (filter (\<lambda>r. Score r = s) ys)) (map Arquivo ys)"
      by (rule subseq_map) simp
    ultimately show ?thesis
      using sub by (metis subseq_order.order_trans)
  qed
  then show ?thesis
    unfolding rs using sorted_reverse_descending [of Score ys] by blast
qed

section \<open>The sample run\<close>


lemma sample_run:
  "main sample_env (sample_inputs ''/cvs'' ''Python data-driven'') = (Ranked sample_ranking, sample_log)"
  by code_simp

lemma sample_listing:
  "listdir sample_env (folder_path (sample_inputs ''/cvs'' ''Python data-driven''))
     = Inr [''ana.pdf'', ''notes.txt'', ''bob.DOCX'', ''eva.pdf'', ''caio.docx'', ''dan.pdf'']"
  by (simp add: sample_env_def sample_inputs_def)

text \<open>Claim C1 on the sample run: three entries, all with a match and a score not below zero.\<close>

theorem C1_witness:
  "main sample_env (sample_inputs ''/cvs'' ''Python data-driven'') = (Ranked sample_ranking, sample_log)
   \<and> map Matches sample_ranking = [2, 1, 1]
   \<and> list_all (\<lambda>r. 1 \<le> Matches r \<and> 0 \<le> Score r) sample_ranking"
  using C1_entries_pass_thresholds [OF sample_run] sample_run
  by (simp add: sample_inputs_def sample_ranking_def)

text \<open>
  Claim C5 on the sample run: the highest score comes first, though its file was listed
  second, and the two entries with score 1/2 stay in the order of the listing.
\<close>

theorem C5_witness:
  "main sample_env (sample_inputs ''/cvs'' ''Python data-driven'') = (Ranked sample_ranking, sample_log)
   \<and> map Score sample_ranking = [3 / 4, 1 / 2, 1 / 2]
   \<and> map Arquivo (filter (\<lambda>r. Score r = 1 / 2) sample_ranking) = [''ana.pdf'', ''dan.pdf'']
   \<and> sorted_wrt (\<lambda>a b. Score a \<ge> Score b) sample_ranking
   \<and> subseq (map Arquivo (filter (\<lambda>r. Score r = 1 / 2) sample_ranking))
        (filter is_candidate [''ana.pdf'', ''notes.txt'', ''bob.DOCX'', ''eva.pdf'', ''caio.docx'', ''dan.pdf''])"
proof -
  note c5 = C5_sorted_descending_stable [OF sample_run sample_listing]
  from c5 have ordered: "sorted_wrt (\<lambda>a b. Score a \<ge> Score b) sample_ranking" ..
  from c5 have "\<forall>s. subseq (map Arquivo (filter (\<lambda>r. Score r = s) sample_ranking))
        (filter is_candidate [''ana.pdf'', ''notes.txt'', ''bob.DOCX'', ''eva.pdf'', ''caio.docx'', ''dan.pdf''])" ..
  then have stable: "subseq (map Arquivo (filter (\<lambda>r. Score r = 1 / 2) sample_ranking))
        (filter is_candidate [''ana.pdf'', ''notes.txt'', ''bob.DOCX'', ''eva.pdf'', ''caio.docx'', ''dan.pdf''])" ..
  have scores: "map Score sample_ranking = [3 / 4, 1 / 2, 1 / 2]"
    by (simp add: sample_ranking_def)
  have ties: "map Arquivo (filter (\<lambda>r. Score r = 1 / 2) sample_ranking) = [''ana.pdf'', ''dan.pdf'']"
    by (simp add: sample_ranking_def)
  from sample_run scores ties ordered stable show ?thesis by (intro conjI)
qed

section \<open>Files without text\<close>


lemma analyse_scored:
  assumes "f \<in> set (scored_files (snd (analyse env model inp)))"
  shows "snd (process_file env (os_path_join (folder_path inp) f) (file_type_of f)) \<noteq> []"
proof (cases "listdir env (folder_path inp)")
  case (Inl e)
  with assms show ?thesis by (simp add: analyse_def)
next
  case (Inr names)
  let ?kws = "job_keywords (isalnum env) (job_title inp) (job_desc inp)"
  let ?vf = "filter is_candidate names"
  show ?thesis
  proof (cases "?vf = []")
    case True
    with assms Inr show ?thesis by (simp add: analyse_def)
  next
    case False
    obtain err st where b: "batch_loop env model inp ?kws (length ?vf) (enumerate ?vf)
        \<lparr>results = [], log = [Progress 0]\<rparr> = (err, st)"
      by (cases "batch_loop env model inp ?kws (length ?vf) (enumerate ?vf)
        \<lparr>results = [], log = [Progress 0]\<rparr>")
    from batch_loop_scored [OF b] obtain evs where evs: "log st = [Progress 0] @ evs"
      and ok: "\<forall>g\<in>set (scored_files evs).
          snd (process_file env (os_path_join (folder_path inp) g) (file_type_of g)) \<noteq> []"
      by auto
    have "scored_files (snd (analyse env model inp)) = scored_files evs"
      using Inr False b evs
      by (auto simp: analyse_def Let_def scored_files_append split: option.splits)
    with assms ok show ?thesis by simp
  qed
qed

lemma main_scored:
  assumes "f \<in> set (scored_files (snd (main env inp)))"
  shows "snd (process_file env (os_path_join (folder_path inp) f) (file_type_of f)) \<noteq> []"
proof (cases "load_model env")
  case (Inl e)
  with assms show ?thesis by (simp add: main_def)
next
  case (Inr model)
  show ?thesis
  proof (cases "button inp \<and> job_title inp \<noteq> [] \<and> folder_path inp \<noteq> []
                \<and> path_exists env (folder_path inp)")
    case True
    with Inr have "main env inp = analyse env model inp" by (simp add: main_def)
    with assms show ?thesis by (simp add: analyse_scored)
  next
    case False
    with Inr assms show ?thesis by (auto simp: main_def split: if_splits)
  qed
qed

lemma main_ranked_file:
  assumes "f \<in> set (map Arquivo (ranked (fst (main env inp))))"
  shows "snd (process_file env (os_path_join (folder_path inp) f) (file_type_of f)) \<noteq> []"
proof -
  obtain out evs where m: "main env inp = (out, evs)" by (cases "main env inp")
  with assms obtain rs where out: "out = Ranked rs" and f: "f \<in> set (map Arquivo rs)"
    by (cases out) auto
  from m out obtain model names st where
    b: "batch_loop env model inp (job_keywords (isalnum env) (job_title inp) (job_desc inp))
       (length (filter is_candidate names)) (enumerate (filter is_candidate names))
       \<lparr>results = [], log = [Progress 0]\<rparr> = (None, st)"
    and r: "rs = sorted_reverse Score (results st)"
    by (auto elim: main_ranked)
  from f r obtain e where e: "e \<in> set (results st)" "Arquivo e = f"
    by (auto simp: set_sorted_reverse)
  from batch_loop_results [OF b] e(1)
  have "accepted env model inp (job_keywords (isalnum env) (job_title inp) (job_desc inp)) e"
    by auto
  with e(2) show ?thesis by (auto simp: accepted_def)
qed

text \<open>
  Claim C4. A file whose extraction returns the empty string is not scored
  (\<open>analyze_resume\<close> is not called for it) and has no entry in the ranked list, whatever
  the thresholds are.
\<close>

theorem C4_empty_text_never_scored:
  assumes "snd (process_file env (os_path_join (folder_path inp) f) (file_type_of f)) = []"
  shows "f \<notin> set (scored_files (snd (main env inp)))
       \<and> f \<notin> set (map Arquivo (ranked (fst (main env inp))))"
  using assms main_scored [of f env inp] main_ranked_file [of f env inp] by blast

text \<open>
  Claim C4 on the sample run: \<open>eva.pdf\<close> is a candidate file whose two pages have no text.
\<close>

theorem C4_witness:
  "snd (process_file sample_env
          (os_path_join (folder_path (sample_inputs ''/cvs'' ''Python data-driven'')) ''eva.pdf'')
          (file_type_of ''eva.pdf'')) = []
   \<and> ''eva.pdf'' \<in> set (filter is_candidate
         [''ana.pdf'', ''notes.txt'', ''bob.DOCX'', ''eva.pdf'', ''caio.docx'', ''dan.pdf''])
   \<and> ''eva.pdf'' \<notin> set (scored_files (snd (main sample_env (sample_inputs ''/cvs'' ''Python data-driven''))))
   \<and> ''eva.pdf'' \<notin> set (map Arquivo (ranked (fst (main sample_env (sample_inputs ''/cvs'' ''Python data-driven'')))))"
proof -
  have empty: "snd (process_file sample_env
          (os_path_join (folder_path (sample_inputs ''/cvs'' ''Python data-driven'')) ''eva.pdf'')
          (file_type_of ''eva.pdf'')) = []"
    by code_simp
  have listed: "''eva.pdf'' \<in> set (filter is_candidate
         [''ana.pdf'', ''notes.txt'', ''bob.DOCX'', ''eva.pdf'', ''caio.docx'', ''dan.pdf''])"
    by code_simp
  from C4_empty_text_never_scored [OF empty] empty listed show ?thesis by (intro conjI) simp_all
qed

section \<open>Failures, empty folders and progress\<close>


text \<open>
  \<open>process_file\<close> has no exceptional result: what is raised inside its \<open>try\<close> becomes a
  warning and the empty string.
\<close>

lemma process_file_raise:
  assumes "try_process_file env p t = Inl e"
  shows "process_file env p t = ([WarningProcess (basename p) e], [])"
  using assms by (simp add: process_file_def)

lemma try_process_file_raise:
  "pdf_pages env p = Inl e \<Longrightarrow> try_process_file env p ''pdf'' = Inl e"
  "t \<noteq> ''pdf'' \<Longrightarrow> docx_paragraphs env p = Inl e \<Longrightarrow> try_process_file env p t = Inl e"
  "read_document env p t = Inr text \<Longrightarrow> text \<noteq> [] \<Longrightarrow> word_tokenize env text = Inl e
     \<Longrightarrow> try_process_file env p t = Inl e"
  by (simp_all add: try_process_file_def read_document_def)

text \<open>
  Claim C8. When reading, parsing or tokenising a file raises, \<open>process_file\<close> shows a
  warning with the file's name and returns the empty string; the loop then goes on with
  the remaining files, its results unchanged.
\<close>

theorem C8_extraction_failure_is_skipped:
  assumes "try_process_file env p t = Inl e"
    and "p = os_path_join (folder_path inp) f" and "t = file_type_of f"
  shows "process_file env p t = ([WarningProcess (basename p) e], [])
       \<and> batch_loop env model inp kws n ((i, f) # rest) st
           = batch_loop env model inp kws n rest
               (emit [Extract p t, WarningProcess (basename p) e] st)"
proof -
  from assms(1) have pf: "process_file env p t = ([WarningProcess (basename p) e], [])"
    by (rule process_file_raise)
  with assms(2,3) have "loop_body env model inp kws n (i, f) st
      = (None, emit [Extract p t, WarningProcess (basename p) e] st)"
    by (simp add: loop_body_def Let_def)
  with pf show ?thesis by simp
qed

text \<open>
  Claim C8 on the sample folder: \<open>caio.docx\<close> cannot be opened; the loop warns and goes on
  to \<open>dan.pdf\<close>, which gets its entry.
\<close>

theorem C8_witness:
  "try_process_file sample_env ''/cvs/caio.docx'' ''docx'' = Inl (Exception ''PackageNotFoundError'')
   \<and> ''/cvs/caio.docx'' = os_path_join (folder_path (sample_inputs ''/cvs'' [])) ''caio.docx''
   \<and> ''docx'' = file_type_of ''caio.docx''
   \<and> basename ''/cvs/caio.docx'' = ''caio.docx''
   \<and> process_file sample_env ''/cvs/caio.docx'' ''docx''
        = ([WarningProcess (basename ''/cvs/caio.docx'') (Exception ''PackageNotFoundError'')], [])
   \<and> batch_loop sample_env (\<lambda>t. Inr t) (sample_inputs ''/cvs'' []) [''Dev''] 2
        [(0, ''caio.docx''), (1, ''dan.pdf'')] \<lparr>results = [], log = [Progress 0]\<rparr>
      = batch_loop sample_env (\<lambda>t. Inr t) (sample_inputs ''/cvs'' []) [''Dev''] 2
        [(1, ''dan.pdf'')]
        (emit [Extract ''/cvs/caio.docx'' ''docx'',
               WarningProcess (basename ''/cvs/caio.docx'') (Exception ''PackageNotFoundError'')]
           \<lparr>results = [], log = [Progress 0]\<rparr>)
   \<and> map Arquivo (results (snd (batch_loop sample_env (\<lambda>t. Inr t) (sample_inputs ''/cvs'' [])
        [''Dev''] 2 [(0, ''caio.docx''), (1, ''dan.pdf'')] \<lparr>results = [], log = [Progress 0]\<rparr>)))
      = [''dan.pdf'']"
proof -
  have raise: "try_process_file sample_env ''/cvs/caio.docx'' ''docx''
      = Inl (Exception ''PackageNotFoundError'')"
    by code_simp
  have path: "''/cvs/caio.docx'' = os_path_join (folder_path (sample_inputs ''/cvs'' [])) ''caio.docx''"
    by code_simp
  have type: "''docx'' = file_type_of ''caio.docx''"
    by code_simp
  have base: "basename ''/cvs/caio.docx'' = ''caio.docx''"
    by code_simp
  have goes_on: "map Arquivo (results (snd (batch_loop sample_env (\<lambda>t. Inr t) (sample_inputs ''/cvs'' [])
        [''Dev''] 2 [(0, ''caio.docx''), (1, ''dan.pdf'')] \<lparr>results = [], log = [Progress 0]\<rparr>)))
      = [''dan.pdf'']"
    by code_simp
  note c8 = C8_extraction_failure_is_skipped [OF raise path type,
      of "\<lambda>t. Inr t" "[''Dev'']" 2 0 "[(1, ''dan.pdf'')]" "\<lparr>results = [], log = [Progress 0]\<rparr>"]
  from c8 have warn: "process_file sample_env ''/cvs/caio.docx'' ''docx''
        = ([WarningProcess (basename ''/cvs/caio.docx'') (Exception ''PackageNotFoundError'')], [])" ..
  from c8 have cont: "batch_loop sample_env (\<lambda>t. Inr t) (sample_inputs ''/cvs'' []) [''Dev''] 2
        [(0, ''caio.docx''), (1, ''dan.pdf'')] \<lparr>results = [], log = [Progress 0]\<rparr>
      = batch_loop sample_env (\<lambda>t. Inr t) (sample_inputs ''/cvs'' []) [''Dev''] 2
        [(1, ''dan.pdf'')]
        (emit [Extract ''/cvs/caio.docx'' ''docx'',
               WarningProcess (basename ''/cvs/caio.docx'') (Exception ''PackageNotFoundError'')]
           \<lparr>results = [], log = [Progress 0]\<rparr>)" ..
  from raise path type base warn cont goes_on show ?thesis by (intro conjI)
qed

text \<open>
  Claim C9, as amended. When the folder exists and no name of its listing, of a file or
  of a sub-directory, has the extension \<open>.pdf\<close> or \<open>.docx\<close> (its last characters, in any
  case), a triggered run shows the message that no PDF or DOCX file was found and stops:
  there is no ranked list, and nothing was extracted or scored.
\<close>

theorem C9_no_candidate_files:
  assumes "load_model env = Inr model"
    and "button inp" and "job_title inp \<noteq> []" and "folder_path inp \<noteq> []"
    and "path_exists env (folder_path inp)"
    and "listdir env (folder_path inp) = Inr names"
    and "\<forall>f\<in>set names. \<not> has_extension f ''.pdf'' \<and> \<not> has_extension f ''.docx''"
  shows "main env inp = (NoCandidateFiles, [ErrorNoFiles])
       \<and> ranked (fst (main env inp)) = []
       \<and> extracted_paths (snd (main env inp)) = []
       \<and> scored_files (snd (main env inp)) = []"
proof -
  from assms(7) have "filter is_candidate names = []"
    by (auto simp: filter_empty_conv is_candidate_def has_extension_iff)
  with assms(1-6) have "main env inp = (NoCandidateFiles, [ErrorNoFiles])"
    by (simp add: main_def analyse_def)
  then show ?thesis by simp
qed

text \<open>
  Claim C9, as amended, on the sample folder \<open>/misc\<close>, which holds a text file and a
  picture.
\<close>

theorem C9_witness:
  "load_model sample_env = Inr (\<lambda>t. Inr t)
   \<and> button (sample_inputs ''/misc'' []) \<and> job_title (sample_inputs ''/misc'' []) \<noteq> []
   \<and> folder_path (sample_inputs ''/misc'' []) \<noteq> []
   \<and> path_exists sample_env (folder_path (sample_inputs ''/misc'' []))
   \<and> listdir sample_env (folder_path (sample_inputs ''/misc'' [])) = Inr [''notes.txt'', ''photo.png'']
   \<and> list_all (\<lambda>f. \<not> has_extension f ''.pdf'' \<and> \<not> has_extension f ''.docx'')
         [''notes.txt'', ''photo.png'']
   \<and> main sample_env (sample_inputs ''/misc'' []) = (NoCandidateFiles, [ErrorNoFiles])"
proof -
  have h1: "load_model sample_env = Inr (\<lambda>t. Inr t)" by (simp add: sample_env_def)
  have h2: "button (sample_inputs ''/misc'' [])" by (simp add: sample_inputs_def)
  have h3: "job_title (sample_inputs ''/misc'' []) \<noteq> []" by (simp add: sample_inputs_def)
  have h4: "folder_path (sample_inputs ''/misc'' []) \<noteq> []" by (simp add: sample_inputs_def)
  have h5: "path_exists sample_env (folder_path (sample_inputs ''/misc'' []))"
    by (simp add: sample_env_def sample_inputs_def)
  have h6: "listdir sample_env (folder_path (sample_inputs ''/misc'' [])) = Inr [''notes.txt'', ''photo.png'']"
    by (simp add: sample_env_def sample_inputs_def)
  have h7: "\<forall>f\<in>set [''notes.txt'', ''photo.png'']. \<not> has_extension f ''.pdf'' \<and> \<not> has_extension f ''.docx''"
    by code_simp
  from h7 have h7': "list_all (\<lambda>f. \<not> has_extension f ''.pdf'' \<and> \<not> has_extension f ''.docx'')
         [''notes.txt'', ''photo.png'']"
    by (simp only: list_all_iff)
  from C9_no_candidate_files [OF h1 h2 h3 h4 h5 h6 h7]
  have "main sample_env (sample_inputs ''/misc'' []) = (NoCandidateFiles, [ErrorNoFiles])" ..
  with h1 h2 h3 h4 h5 h6 h7' show ?thesis by (intro conjI)
qed

text \<open>
  Claim C9 as stated fails: the only entry of the folder \<open>/arch\<close> is a sub-directory named
  \<open>old.pdf\<close>, so the folder contains no file at all; the listing is filtered by name only,
  the entry is taken for a candidate, opening it raises, and the run ends with the
  message that no candidate met the criteria, after an extraction attempt and a warning.
\<close>

theorem C9_counterexample:
  "path_exists sample_env ''/arch''
   \<and> listdir sample_env ''/arch'' = Inr [''old.pdf'']
   \<and> files_in sample_env ''/arch'' = []
   \<and> main sample_env (sample_inputs ''/arch'' [])
       = (NoQualifyingCandidates,
          [Progress 0, Extract ''/arch/old.pdf'' ''pdf'',
           WarningProcess ''old.pdf'' (Exception ''IsADirectoryError''), WarningNoneQualified])
   \<and> extracted_paths (snd (main sample_env (sample_inputs ''/arch'' []))) = [''/arch/old.pdf'']"
  by code_simp

text \<open>
  Claim C6 at a folder whose only file is a PDF without text: the file is skipped by
  \<open>continue\<close> before the progress bar is updated, so the only value the bar is given is
  the initial 0; nothing is reported after the file and 1 is never reached.
\<close>

theorem C6_progress_not_reported_for_skipped_file:
  "listdir sample_env ''/scan'' = Inr [''scan.pdf'']
   \<and> snd (process_file sample_env ''/scan/scan.pdf'' ''pdf'') = []
   \<and> main sample_env (sample_inputs ''/scan'' [])
       = (NoQualifyingCandidates, [Progress 0, Extract ''/scan/scan.pdf'' ''pdf'', WarningNoneQualified])
   \<and> progress_values (snd (main sample_env (sample_inputs ''/scan'' []))) = [0]"
  by code_simp

section \<open>The single-file scenario\<close>


lemma count_matches_title:
  assumes "py_in title text"
  shows "count_matches text (job_keywords alnum title desc)
           = 1 + count_matches text (filter (\<lambda>word. length word > 3) (findall_w4 alnum desc))"
  using assms by (simp add: count_matches_def job_keywords_def)

lemma py_in_nonempty: "py_in sub s \<Longrightarrow> sub \<noteq> [] \<Longrightarrow> s \<noteq> []"
  by (cases s) auto

text \<open>
  Claim C2, as amended. The folder has one candidate file, a PDF, and the text extracted
  from it contains the job title (three times, or any number of times); extraction and
  scoring raise nothing and the similarity is not negative. With \<open>min_matches = 1\<close> and
  \<open>min_score = 0.0\<close> the ranked list then has exactly one entry, for that file, and its
  match count is at least 1: the title counts once however often it occurs, and every
  keyword of the description that occurs in the text counts once more.
\<close>

theorem C2_single_pdf_one_entry:
  assumes "load_model env = Inr model"
    and "button inp" and "job_title inp \<noteq> []" and "folder_path inp \<noteq> []"
    and "path_exists env (folder_path inp)"
    and "listdir env (folder_path inp) = Inr names"
    and "filter is_candidate names = [f]" and "file_type_of f = ''pdf''"
    and "process_file env (os_path_join (folder_path inp) f) ''pdf'' = (warnings, text)"
    and "0 < occurrences (job_title inp) text"
    and "analyze_resume (isprintable env) model (cos_sim env) text
           (job_keywords (isalnum env) (job_title inp) (job_desc inp)) = Inr (matches, score)"
    and "0 \<le> score"
    and "min_matches inp = 1" and "min_score inp = 0"
  shows "fst (main env inp)
           = Ranked [\<lparr>Arquivo = f, Caminho = os_path_join (folder_path inp) f, Tipo = ''pdf'',
                      Texto = text, Score = score, Matches = matches\<rparr>]
       \<and> 1 \<le> matches
       \<and> matches = 1 + count_matches text
                          (filter (\<lambda>word. length word > 3) (findall_w4 (isalnum env) (job_desc inp)))"
proof -
  let ?kws = "job_keywords (isalnum env) (job_title inp) (job_desc inp)"
  from assms(10) have title_in: "py_in (job_title inp) text"
    by (simp add: occurrences_pos_iff)
  from title_in assms(3) have nonempty: "text \<noteq> []" by (rule py_in_nonempty)
  from assms(11) have m: "matches = count_matches text ?kws"
    by (auto simp: analyze_resume_def Let_def split: sum.splits)
  with title_in have m1: "matches = 1 + count_matches text
      (filter (\<lambda>word. length word > 3) (findall_w4 (isalnum env) (job_desc inp)))"
    by (simp add: count_matches_title)
  have "0 \<le> count_matches text
      (filter (\<lambda>word. length word > 3) (findall_w4 (isalnum env) (job_desc inp)))"
    by (simp add: count_matches_length)
  with m1 have pos: "1 \<le> matches" by simp
  have body: "loop_body env model inp ?kws 1 (0, f) \<lparr>results = [], log = [Progress 0]\<rparr>
      = (None, emit [Progress 1]
           ((emit [Scored f] (emit (Extract (os_path_join (folder_path inp) f) ''pdf'' # warnings)
               \<lparr>results = [], log = [Progress 0]\<rparr>))
            \<lparr>results := [\<lparr>Arquivo = f, Caminho = os_path_join (folder_path inp) f, Tipo = ''pdf'',
                      Texto = text, Score = score, Matches = matches\<rparr>]\<rparr>))"
    using assms(8,9,11,12,13,14) nonempty pos
    by (simp add: loop_body_def Let_def emit_def)
  have "fst (main env inp)
           = Ranked [\<lparr>Arquivo = f, Caminho = os_path_join (folder_path inp) f, Tipo = ''pdf'',
                      Texto = text, Score = score, Matches = matches\<rparr>]"
    using assms(1-7) body
    by (simp add: main_def analyse_def enumerate_def emit_def sorted_reverse_def)
  with pos m1 show ?thesis by simp
qed

text \<open>Claim C2, as amended, on the sample folder \<open>/one\<close>.\<close>

theorem C2_witness:
  "filter is_candidate [''cv.pdf''] = [''cv.pdf'']
   \<and> process_file sample_env (os_path_join (folder_path (sample_inputs ''/one'' [])) ''cv.pdf'') ''pdf''
        = ([], ''Dev Dev Dev'')
   \<and> 0 < occurrences (job_title (sample_inputs ''/one'' [])) ''Dev Dev Dev''
   \<and> fst (main sample_env (sample_inputs ''/one'' []))
        = Ranked [\<lparr>Arquivo = ''cv.pdf'',
                  Caminho = os_path_join (folder_path (sample_inputs ''/one'' [])) ''cv.pdf'',
                  Tipo = ''pdf'', Texto = ''Dev Dev Dev'', Score = 1 / 2, Matches = 1\<rparr>]"
proof -
  have h1: "load_model sample_env = Inr (\<lambda>t. Inr t)" by (simp add: sample_env_def)
  have h2: "button (sample_inputs ''/one'' [])" by (simp add: sample_inputs_def)
  have h3: "job_title (sample_inputs ''/one'' []) \<noteq> []" by (simp add: sample_inputs_def)
  have h4: "folder_path (sample_inputs ''/one'' []) \<noteq> []" by (simp add: sample_inputs_def)
  have h5: "path_exists sample_env (folder_path (sample_inputs ''/one'' []))"
    by (simp add: sample_env_def sample_inputs_def)
  have h6: "listdir sample_env (folder_path (sample_inputs ''/one'' [])) = Inr [''cv.pdf'']"
    by (simp add: sample_env_def sample_inputs_def)
  have h7: "filter is_candidate [''cv.pdf''] = [''cv.pdf'']" by code_simp
  have h8: "file_type_of ''cv.pdf'' = ''pdf''" by code_simp
  have h9: "process_file sample_env
      (os_path_join (folder_path (sample_inputs ''/one'' [])) ''cv.pdf'') ''pdf'' = ([], ''Dev Dev Dev'')"
    by code_simp
  have h10: "0 < occurrences (job_title (sample_inputs ''/one'' [])) ''Dev Dev Dev''"
    by code_simp
  have h11: "analyze_resume (isprintable sample_env) (\<lambda>t. Inr t) (cos_sim sample_env) ''Dev Dev Dev''
      (job_keywords (isalnum sample_env) (job_title (sample_inputs ''/one'' []))
         (job_desc (sample_inputs ''/one'' []))) = Inr (1, 1 / 2)"
    by code_simp
  have h12: "(0 :: real) \<le> 1 / 2" by simp
  have h13: "min_matches (sample_inputs ''/one'' []) = 1" by (simp add: sample_inputs_def)
  have h14: "min_score (sample_inputs ''/one'' []) = 0" by (simp add: sample_inputs_def)
  note c2 = C2_single_pdf_one_entry [OF h1 h2 h3 h4 h5 h6 h7 h8 h9 h10 h11 h12 h13 h14]
  from c2 have "fst (main sample_env (sample_inputs ''/one'' []))
        = Ranked [\<lparr>Arquivo = ''cv.pdf'',
                  Caminho = os_path_join (folder_path (sample_inputs ''/one'' [])) ''cv.pdf'',
                  Tipo = ''pdf'', Texto = ''Dev Dev Dev'', Score = 1 / 2, Matches = 1\<rparr>]" ..
  with h7 h9 h10 show ?thesis by (intro conjI)
qed

text \<open>
  Claim C2 as stated fails: in the folder \<open>/one\<close> the only file is a PDF whose text is the
  title \<open>Dev\<close> three times; with \<open>min_matches = 1\<close> and \<open>min_score = 0.0\<close> the ranked list has
  its one entry, but the match count of that entry is 1, not 3 or more.
\<close>

theorem C2_counterexample:
  "listdir sample_env ''/one'' = Inr [''cv.pdf'']
   \<and> process_file sample_env ''/one/cv.pdf'' ''pdf'' = ([], ''Dev Dev Dev'')
   \<and> job_title (sample_inputs ''/one'' []) = ''Dev''
   \<and> occurrences ''Dev'' ''Dev Dev Dev'' = 3
   \<and> min_matches (sample_inputs ''/one'' []) = 1
   \<and> min_score (sample_inputs ''/one'' []) = 0
   \<and> map Matches (ranked (fst (main sample_env (sample_inputs ''/one'' [])))) = [1]"
  by code_simp

end
